theory Spec2Isabelle
  imports Main "HOL-Library.Char_ord" "HOL-Library.List_Lexorder"
begin

section \<open>JavaScript values used by the attendance page\<close>

text \<open>
  The attendance page (\<open>AttendancePage\<close>, the component in \<open>src/unnamed/part_000\<close>)
  keeps its data in plain JavaScript objects keyed by student identifier. An object is
  modelled by the list of its own properties in enumeration order; keys are distinct.
  Assigning to a property replaces the value in place when the key exists and appends the
  property otherwise. (For keys that are canonical array indices JavaScript enumerates in
  ascending numeric order instead; the theorems below speak of membership and lookup only,
  which do not depend on the enumeration order.)

  A string-valued field that may be \<open>undefined\<close> or \<open>null\<close> is a \<open>string option\<close>;
  the code only ever tests such a field for truthiness, which does not tell the two apart.
\<close>

type_synonym 'v obj = "(string \<times> 'v) list"

fun obj_set :: "string \<Rightarrow> 'v \<Rightarrow> 'v obj \<Rightarrow> 'v obj" where
  "obj_set k v [] = [(k, v)]"
| "obj_set k v ((k', v') # ps) = (if k' = k then (k, v) # ps else (k', v') # obj_set k v ps)"

definition obj_get :: "'v obj \<Rightarrow> string \<Rightarrow> 'v option" where
  "obj_get ob k = map_of ob k"

definition obj_keys :: "'v obj \<Rightarrow> string set" where
  "obj_keys ob = fst ` set ob"

text \<open>Truthiness of a possibly missing string: \<open>undefined\<close>, \<open>null\<close> and \<open>''\<close> are falsy.\<close>

fun truthy :: "string option \<Rightarrow> bool" where
  "truthy None = False"
| "truthy (Some s) = (s \<noteq> [])"

text \<open>\<open>x || ''\<close>, \<open>x || null\<close> and \<open>xs || []\<close>.\<close>

definition or_empty :: "string option \<Rightarrow> string" where
  "or_empty x = (case x of None \<Rightarrow> [] | Some s \<Rightarrow> s)"

definition or_null :: "string option \<Rightarrow> string option" where
  "or_null x = (if truthy x then x else None)"

definition or_nil :: "'a list option \<Rightarrow> 'a list" where
  "or_nil x = (case x of None \<Rightarrow> [] | Some xs \<Rightarrow> xs)"

section \<open>Data model\<close>

text \<open>Rows of the remote tables, with the columns the page's queries name.\<close>

record class_row =
  cls_id :: string
  cls_name :: string
  cls_year_level :: int
  cls_section :: "string option"
  cls_is_active :: bool

record student =
  stu_id :: string
  stu_student_number :: string
  stu_first_name :: string
  stu_last_name :: string
  stu_class_id :: string
  stu_is_active :: bool

record attendance_record =
  ar_id :: string
  ar_student_id :: string
  ar_class_id :: string
  ar_teacher_id :: string
  ar_attendance_date :: string
  ar_status :: "string option"
  ar_notes :: "string option"

text \<open>What the two queries of the load effect select:
  \<open>select('id, student_number, first_name, last_name')\<close> and
  \<open>select('id, student_id, status, notes')\<close>.\<close>

record roster_row =
  rr_id :: string
  rr_student_number :: string
  rr_first_name :: string
  rr_last_name :: string

record attendance_row =
  row_id :: string
  row_student_id :: string
  row_status :: "string option"
  row_notes :: "string option"

text \<open>An entry of the editable attendance object: \<open>{status, notes}\<close>, either possibly unset.\<close>

record entry =
  entry_status :: "string option"
  entry_notes :: "string option"

text \<open>The records prepared by a save: \<open>recordData\<close>, and \<open>{id, ...recordData}\<close>.\<close>

record save_record =
  sr_student_id :: string
  sr_class_id :: string
  sr_teacher_id :: string
  sr_attendance_date :: string
  sr_status :: string
  sr_notes :: "string option"

record update_record = save_record +
  ur_id :: string

text \<open>What the page shows the user: toasts, and the questions of \<open>window.confirm\<close>.\<close>

datatype toast =
    ToastError string
  | ToastSuccess string
  | ToastSaved nat  \<comment> \<open>"Attendance saved successfully! n records processed."\<close>

datatype prompt =
    ConfirmSwitchClass  \<comment> \<open>"You have unsaved changes. Are you sure you want to switch classes? ..."\<close>
  | ConfirmQuickMark string  \<comment> \<open>"Mark ALL students as ...? This will overwrite any existing selections."\<close>
  | ConfirmUnmarked nat  \<comment> \<open>"n students don't have attendance marked. Do you want to continue? ..."\<close>

text \<open>The component's state (its \<open>useState\<close> cells), followed by what it has shown the user
  and the route it last navigated to.\<close>

record page_state =
  selectedClass :: "class_row option"
  classes :: "class_row list"
  students :: "roster_row list"
  attendance :: "entry obj"
  loading :: bool
  saving :: bool
  currentDate :: string
  existingRecords :: "string obj"
  hasChanges :: bool
  toasts :: "toast list"
  prompts :: "prompt list"
  route :: "string option"

text \<open>The answer of the remote store to a query: the awaited call throws, or it resolves to
  \<open>{data, error}\<close> with an error, or with data (which may be \<open>null\<close>).\<close>

datatype 'a reply = Thrown | ErrorReply string | DataReply "'a list option"

section \<open>Loading the roster and the existing attendance\<close>

text \<open>The body of the \<open>forEach\<close> over the fetched attendance rows (lines 102-108).\<close>

definition recordStep :: "attendance_row \<Rightarrow> string obj \<times> entry obj \<Rightarrow> string obj \<times> entry obj" where
  "recordStep r acc =
     (obj_set (row_student_id r) (row_id r) (fst acc),
      obj_set (row_student_id r) \<lparr>entry_status = row_status r, entry_notes = Some (or_empty (row_notes r))\<rparr> (snd acc))"

definition buildEditableState :: "attendance_row list \<Rightarrow> string obj \<times> entry obj" where
  "buildEditableState rows = fold recordStep rows ([], [])"

text \<open>The effect \<open>loadStudentsAndAttendance\<close> (lines 61-120), given the store's two answers.
  The second query is only sent after the first has succeeded.\<close>

definition loadStudentsAndAttendance ::
  "page_state \<Rightarrow> roster_row reply \<Rightarrow> attendance_row reply \<Rightarrow> page_state" where
  "loadStudentsAndAttendance st studentsReply attendanceReply =
     (case selectedClass st of
        None \<Rightarrow> st\<lparr>loading := False\<rparr>
      | Some cls \<Rightarrow>
         (case studentsReply of
            Thrown \<Rightarrow> st\<lparr>loading := False, toasts := toasts st @ [ToastError ''Failed to load data'']\<rparr>
          | ErrorReply e \<Rightarrow>
              st\<lparr>loading := False, toasts := toasts st @ [ToastError ''Failed to load students'']\<rparr>
          | DataReply studentsData \<Rightarrow>
             (let st1 = st\<lparr>students := or_nil studentsData\<rparr> in
              case attendanceReply of
                Thrown \<Rightarrow>
                  st1\<lparr>loading := False, toasts := toasts st @ [ToastError ''Failed to load data'']\<rparr>
              | ErrorReply e \<Rightarrow>
                  st1\<lparr>loading := False,
                      toasts := toasts st @ [ToastError ''Failed to load existing attendance'']\<rparr>
              | DataReply attendanceData \<Rightarrow>
                 (let maps = buildEditableState (or_nil attendanceData) in
                  st1\<lparr>existingRecords := fst maps, attendance := snd maps,
                      hasChanges := False, loading := False\<rparr>))))"

text \<open>The two queries of the effect, evaluated on the tables of the remote store:
  students with \<open>.eq('class_id', selectedClass.id).eq('is_active', true).order('last_name')\<close>
  (lines 70-75) and attendance records with
  \<open>.eq('class_id', selectedClass.id).eq('attendance_date', currentDate)\<close> (lines 86-90).\<close>

record store =
  students_tbl :: "student list"
  attendance_tbl :: "attendance_record list"

definition select_roster :: "student \<Rightarrow> roster_row" where
  "select_roster s =
     \<lparr>rr_id = stu_id s, rr_student_number = stu_student_number s,
      rr_first_name = stu_first_name s, rr_last_name = stu_last_name s\<rparr>"

definition select_attendance :: "attendance_record \<Rightarrow> attendance_row" where
  "select_attendance r =
     \<lparr>row_id = ar_id r, row_student_id = ar_student_id r,
      row_status = ar_status r, row_notes = ar_notes r\<rparr>"

definition fetchRoster :: "store \<Rightarrow> string \<Rightarrow> roster_row list" where
  "fetchRoster db classId =
     sort_key rr_last_name
       (map select_roster
          (filter (\<lambda>s. stu_class_id s = classId \<and> stu_is_active s) (students_tbl db)))"

definition fetchAttendance :: "store \<Rightarrow> string \<Rightarrow> string \<Rightarrow> attendance_row list" where
  "fetchAttendance db classId date =
     map select_attendance
       (filter (\<lambda>r. ar_class_id r = classId \<and> ar_attendance_date r = date) (attendance_tbl db))"

text \<open>The effect run against a store that answers both queries.\<close>

definition loadFromStore :: "page_state \<Rightarrow> store \<Rightarrow> page_state" where
  "loadFromStore st db =
     (case selectedClass st of
        None \<Rightarrow> loadStudentsAndAttendance st (DataReply None) (DataReply None)
      | Some cls \<Rightarrow>
          loadStudentsAndAttendance st
            (DataReply (Some (fetchRoster db (cls_id cls))))
            (DataReply (Some (fetchAttendance db (cls_id cls) (currentDate st)))))"

section \<open>Loading the classes, switching class and date\<close>

text \<open>The effect \<open>loadClasses\<close> (lines 24-54); \<open>classId\<close> is the route parameter.\<close>

definition loadClasses :: "page_state \<Rightarrow> string option \<Rightarrow> class_row reply \<Rightarrow> page_state" where
  "loadClasses st classId classesReply =
     (case classesReply of
        Thrown \<Rightarrow> st\<lparr>toasts := toasts st @ [ToastError ''Failed to load classes'']\<rparr>
      | ErrorReply e \<Rightarrow> st\<lparr>toasts := toasts st @ [ToastError ''Failed to load classes'']\<rparr>
      | DataReply classesData \<Rightarrow>
         (let st1 = st\<lparr>classes := or_nil classesData\<rparr> in
          case classesData of
            None \<Rightarrow> st1
          | Some cs \<Rightarrow>
             (if truthy classId then
                (case find (\<lambda>c. cls_id c = or_empty classId) cs of
                   Some foundClass \<Rightarrow> st1\<lparr>selectedClass := Some foundClass\<rparr>
                 | None \<Rightarrow> st1\<lparr>toasts := toasts st @ [ToastError ''Class not found''],
                                route := Some ''/teacher''\<rparr>)
              else st1)))"

text \<open>\<open>handleClassChange\<close> (lines 125-136); \<open>confirmed\<close> is the user's answer to the
  question, which is asked only when there are unsaved changes.\<close>

definition handleClassChange :: "page_state \<Rightarrow> string \<Rightarrow> bool \<Rightarrow> page_state" where
  "handleClassChange st newClassId confirmed =
     (if hasChanges st \<and> \<not> confirmed then st\<lparr>prompts := prompts st @ [ConfirmSwitchClass]\<rparr>
      else
        st\<lparr>selectedClass := find (\<lambda>c. cls_id c = newClassId) (classes st),
           route := Some (''/teacher/attendance/'' @ newClassId),
           prompts := (if hasChanges st then prompts st @ [ConfirmSwitchClass] else prompts st)\<rparr>)"

text \<open>The \<open>onChange\<close> of the date input (line 373): \<open>setCurrentDate(e.target.value)\<close>.\<close>

definition dateChange :: "page_state \<Rightarrow> string \<Rightarrow> page_state" where
  "dateChange st newDate = st\<lparr>currentDate := newDate\<rparr>"

text \<open>The button "Back to Dashboard" (line 382).\<close>

definition backToDashboard :: "page_state \<Rightarrow> page_state" where
  "backToDashboard st = st\<lparr>route := Some ''/teacher''\<rparr>"

section \<open>Editing\<close>

datatype field = Status | Notes

definition empty_entry :: entry where
  "empty_entry = \<lparr>entry_status = None, entry_notes = None\<rparr>"

text \<open>\<open>{...prev[studentId], [field]: value}\<close>; spreading \<open>undefined\<close> gives no property.\<close>

definition set_field :: "field \<Rightarrow> string \<Rightarrow> entry option \<Rightarrow> entry" where
  "set_field fld v prev =
     (let e = (case prev of None \<Rightarrow> empty_entry | Some e \<Rightarrow> e) in
      case fld of Status \<Rightarrow> e\<lparr>entry_status := Some v\<rparr> | Notes \<Rightarrow> e\<lparr>entry_notes := Some v\<rparr>)"

text \<open>\<open>handleAttendanceChange\<close> (lines 138-147).\<close>

definition handleAttendanceChange :: "page_state \<Rightarrow> string \<Rightarrow> field \<Rightarrow> string \<Rightarrow> page_state" where
  "handleAttendanceChange st studentId fld v =
     st\<lparr>attendance :=
          obj_set studentId (set_field fld v (obj_get (attendance st) studentId)) (attendance st),
        hasChanges := True\<rparr>"

text \<open>\<open>attendance[student.id]?.status\<close> and \<open>attendance[student.id]?.notes\<close>.\<close>

definition statusOf :: "entry obj \<Rightarrow> string \<Rightarrow> string option" where
  "statusOf att k = (case obj_get att k of None \<Rightarrow> None | Some e \<Rightarrow> entry_status e)"

definition notesOf :: "entry obj \<Rightarrow> string \<Rightarrow> string option" where
  "notesOf att k = (case obj_get att k of None \<Rightarrow> None | Some e \<Rightarrow> entry_notes e)"

text \<open>\<open>handleQuickMark\<close> (lines 149-168): the body of its \<open>forEach\<close> over the roster, which
  reads the notes from the attendance object of the current render and writes into the new
  object, and the handler; \<open>confirmed\<close> is the user's answer.\<close>

definition quickMarkStep :: "string \<Rightarrow> entry obj \<Rightarrow> roster_row \<Rightarrow> entry obj \<Rightarrow> entry obj" where
  "quickMarkStep st_new att student newAttendance =
     obj_set (rr_id student)
       \<lparr>entry_status = Some st_new, entry_notes = Some (or_empty (notesOf att (rr_id student)))\<rparr>
       newAttendance"

definition handleQuickMark :: "page_state \<Rightarrow> string \<Rightarrow> bool \<Rightarrow> page_state" where
  "handleQuickMark st st_new confirmed =
     (if selectedClass st = None \<or> students st = [] then st
      else if confirmed then
        st\<lparr>attendance := fold (quickMarkStep st_new (attendance st)) (students st) [],
           hasChanges := True,
           toasts := toasts st @ [ToastSuccess (''All students marked as '' @ st_new)],
           prompts := prompts st @ [ConfirmQuickMark st_new]\<rparr>
      else st\<lparr>prompts := prompts st @ [ConfirmQuickMark st_new]\<rparr>)"

section \<open>Saving\<close>

text \<open>The body of the \<open>forEach\<close> over \<open>Object.entries(attendance)\<close> that prepares the
  records (lines 192-214). \<open>existingRecords[studentId]\<close> is tested for truthiness.\<close>

definition withId :: "string \<Rightarrow> save_record \<Rightarrow> update_record" where
  "withId rid r =
     \<lparr>sr_student_id = sr_student_id r, sr_class_id = sr_class_id r,
      sr_teacher_id = sr_teacher_id r, sr_attendance_date = sr_attendance_date r,
      sr_status = sr_status r, sr_notes = sr_notes r, ur_id = rid\<rparr>"

definition recordData :: "string \<Rightarrow> string \<Rightarrow> string \<Rightarrow> string \<Rightarrow> string \<Rightarrow> entry \<Rightarrow> save_record" where
  "recordData classId userId date studentId st_val e =
     \<lparr>sr_student_id = studentId, sr_class_id = classId, sr_teacher_id = userId,
      sr_attendance_date = date, sr_status = st_val, sr_notes = or_null (entry_notes e)\<rparr>"

definition submitStep ::
  "string \<Rightarrow> string \<Rightarrow> string \<Rightarrow> string obj \<Rightarrow> string \<times> entry \<Rightarrow>
   save_record list \<times> update_record list \<Rightarrow> save_record list \<times> update_record list" where
  "submitStep classId userId date existing p acc =
     (if \<not> truthy (entry_status (snd p)) then acc
      else
        (let rd = recordData classId userId date (fst p) (or_empty (entry_status (snd p))) (snd p) in
         if truthy (obj_get existing (fst p))
         then (fst acc, snd acc @ [withId (or_empty (obj_get existing (fst p))) rd])
         else (fst acc @ [rd], snd acc)))"

definition computeSubmission ::
  "string \<Rightarrow> string \<Rightarrow> string \<Rightarrow> entry obj \<Rightarrow> string obj \<Rightarrow> save_record list \<times> update_record list" where
  "computeSubmission classId userId date att existing =
     fold (submitStep classId userId date existing) att ([], [])"

text \<open>The calls sent to the remote store: \<open>.insert(recordsToSave)\<close>, and
  \<open>.update({status, notes, updated_at}).eq('id', record.id)\<close> (identifier, status, notes,
  time). The store is a parameter: a call either fails with an error or succeeds, and
  leaves the store in some state; an awaited call that throws lands in the same
  \<open>catch\<close> as a returned error.\<close>

datatype call =
    InsertCall "save_record list"
  | UpdateCall string string "string option" string

type_synonym 's remote = "call \<Rightarrow> 's \<Rightarrow> string option \<times> 's"

text \<open>The loop over \<open>recordsToUpdate\<close> (lines 229-243); \<open>clock n\<close> is the time read by
  \<open>new Date().toISOString()\<close> in the n-th round. The result is the error thrown (if any),
  the store, and the calls issued, in order.\<close>

fun updateLoop ::
  "'s remote \<Rightarrow> (nat \<Rightarrow> string) \<Rightarrow> nat \<Rightarrow> update_record list \<Rightarrow> 's \<Rightarrow> string option \<times> 's \<times> call list" where
  "updateLoop exec clock n [] db = (None, db, [])"
| "updateLoop exec clock n (r # rs) db =
     (let c = UpdateCall (ur_id r) (sr_status r) (sr_notes r) (clock n);
          res = exec c db
      in case fst res of
           Some err \<Rightarrow> (Some err, snd res, [c])
         | None \<Rightarrow>
            (let rest = updateLoop exec clock (Suc n) rs (snd res)
             in (fst rest, fst (snd rest), c # snd (snd rest))))"

text \<open>Lines 216-243: the insert, when there is something to insert, then the updates.\<close>

definition persist ::
  "'s remote \<Rightarrow> (nat \<Rightarrow> string) \<Rightarrow> save_record list \<Rightarrow> update_record list \<Rightarrow> 's \<Rightarrow>
   string option \<times> 's \<times> call list" where
  "persist exec clock recordsToSave recordsToUpdate db =
     (if recordsToSave \<noteq> [] then
        (let res = exec (InsertCall recordsToSave) db
         in case fst res of
              Some err \<Rightarrow> (Some err, snd res, [InsertCall recordsToSave])
            | None \<Rightarrow>
               (let rest = updateLoop exec clock 0 recordsToUpdate (snd res)
                in (fst rest, fst (snd rest), InsertCall recordsToSave # snd (snd rest))))
      else updateLoop exec clock 0 recordsToUpdate db)"

text \<open>The rebuild of \<open>existingRecords\<close> after a successful save (lines 249-258).\<close>

definition rebuildStep :: "string obj \<Rightarrow> string \<times> entry \<Rightarrow> string obj \<Rightarrow> string obj" where
  "rebuildStep existing p updatedExisting =
     (if truthy (entry_status (snd p)) \<and> \<not> truthy (obj_get existing (fst p))
      then obj_set (fst p) ''new'' updatedExisting
      else if truthy (obj_get existing (fst p))
      then obj_set (fst p) (or_empty (obj_get existing (fst p))) updatedExisting
      else updatedExisting)"

definition rebuildExisting :: "entry obj \<Rightarrow> string obj \<Rightarrow> string obj" where
  "rebuildExisting att existing = fold (rebuildStep existing) att []"

text \<open>\<open>handleSaveAttendance\<close> (lines 170-266). \<open>user\<close> is the identifier of the signed-in
  user, if any; \<open>confirmed\<close> is the user's answer when asked about unmarked students.\<close>

definition unmarkedStudents :: "page_state \<Rightarrow> roster_row list" where
  "unmarkedStudents st = filter (\<lambda>s. \<not> truthy (statusOf (attendance st) (rr_id s))) (students st)"

definition handleSaveAttendance ::
  "'s remote \<Rightarrow> (nat \<Rightarrow> string) \<Rightarrow> string option \<Rightarrow> bool \<Rightarrow> page_state \<times> 's \<Rightarrow> page_state \<times> 's" where
  "handleSaveAttendance exec clock user confirmed w =
     (let st = fst w; db = snd w in
      case selectedClass st of
        None \<Rightarrow> (st\<lparr>toasts := toasts st @ [ToastError ''Missing required data'']\<rparr>, db)
      | Some cls \<Rightarrow>
         (case user of
            None \<Rightarrow> (st\<lparr>toasts := toasts st @ [ToastError ''Missing required data'']\<rparr>, db)
          | Some userId \<Rightarrow>
             (let unmarked = unmarkedStudents st;
                  asked = (if unmarked \<noteq> [] then prompts st @ [ConfirmUnmarked (length unmarked)]
                           else prompts st)
              in if unmarked \<noteq> [] \<and> \<not> confirmed then (st\<lparr>prompts := asked\<rparr>, db)
                 else
                   (let sub = computeSubmission (cls_id cls) userId (currentDate st)
                                (attendance st) (existingRecords st);
                        res = persist exec clock (fst sub) (snd sub) db
                    in case fst res of
                         None \<Rightarrow>
                           (st\<lparr>prompts := asked, saving := False, hasChanges := False,
                               existingRecords := rebuildExisting (attendance st) (existingRecords st),
                               toasts := toasts st @ [ToastSaved (length (fst sub) + length (snd sub))]\<rparr>,
                            fst (snd res))
                       | Some err \<Rightarrow>
                           (st\<lparr>prompts := asked, saving := False,
                               toasts := toasts st
                                 @ [ToastError ''Failed to save attendance. Please try again.'']\<rparr>,
                            fst (snd res))))))"

section \<open>The operations of the component as events\<close>

datatype event =
    LoadClasses "string option" "class_row reply"
  | LoadStudentsAndAttendance "roster_row reply" "attendance_row reply"
  | ClassChange string bool
  | DateChange string
  | BackToDashboard
  | AttendanceChange string field string
  | QuickMark string bool
  | SaveAttendance "nat \<Rightarrow> string" "string option" bool

fun step :: "'s remote \<Rightarrow> event \<Rightarrow> page_state \<times> 's \<Rightarrow> page_state \<times> 's" where
  "step exec (LoadClasses classId r) w = (loadClasses (fst w) classId r, snd w)"
| "step exec (LoadStudentsAndAttendance r1 r2) w = (loadStudentsAndAttendance (fst w) r1 r2, snd w)"
| "step exec (ClassChange newClassId confirmed) w = (handleClassChange (fst w) newClassId confirmed, snd w)"
| "step exec (DateChange newDate) w = (dateChange (fst w) newDate, snd w)"
| "step exec BackToDashboard w = (backToDashboard (fst w), snd w)"
| "step exec (AttendanceChange studentId fld v) w = (handleAttendanceChange (fst w) studentId fld v, snd w)"
| "step exec (QuickMark st_new confirmed) w = (handleQuickMark (fst w) st_new confirmed, snd w)"
| "step exec (SaveAttendance clock user confirmed) w = handleSaveAttendance exec clock user confirmed w"

text \<open>The state of the component when it mounts (lines 12-20), on a given day.\<close>

definition initial_state :: "string \<Rightarrow> page_state" where
  "initial_state today =
     \<lparr>selectedClass = None, classes = [], students = [], attendance = [], loading = True,
      saving = False, currentDate = today, existingRecords = [], hasChanges = False,
      toasts = [], prompts = [], route = None\<rparr>"

section \<open>A small school, used for the concrete runs below\<close>

definition ex_class :: class_row where
  "ex_class = \<lparr>cls_id = ''c1'', cls_name = ''Year 7A'', cls_year_level = 7,
     cls_section = Some ''A'', cls_is_active = True\<rparr>"

definition ex_alice :: student where
  "ex_alice = \<lparr>stu_id = ''s1'', stu_student_number = ''1001'', stu_first_name = ''Alice'',
     stu_last_name = ''Adams'', stu_class_id = ''c1'', stu_is_active = True\<rparr>"

definition ex_bob :: student where
  "ex_bob = \<lparr>stu_id = ''s2'', stu_student_number = ''1002'', stu_first_name = ''Bob'',
     stu_last_name = ''Brown'', stu_class_id = ''c1'', stu_is_active = True\<rparr>"

text \<open>Carol was marked present on 2 May and deactivated afterwards.\<close>

definition ex_carol :: student where
  "ex_carol = \<lparr>stu_id = ''s3'', stu_student_number = ''1003'', stu_first_name = ''Carol'',
     stu_last_name = ''Clark'', stu_class_id = ''c1'', stu_is_active = False\<rparr>"

definition ex_db :: store where
  "ex_db = \<lparr>students_tbl = [ex_bob, ex_alice, ex_carol],
     attendance_tbl =
       [\<lparr>ar_id = ''r99'', ar_student_id = ''s2'', ar_class_id = ''c1'', ar_teacher_id = ''t1'',
         ar_attendance_date = ''2024-05-02'', ar_status = Some ''absent'', ar_notes = Some ''sick''\<rparr>,
        \<lparr>ar_id = ''r77'', ar_student_id = ''s3'', ar_class_id = ''c1'', ar_teacher_id = ''t1'',
         ar_attendance_date = ''2024-05-02'', ar_status = Some ''present'', ar_notes = None\<rparr>]\<rparr>"

text \<open>The page with class c1 selected on 2 May, before anything is loaded.\<close>

definition ex_selected :: page_state where
  "ex_selected =
     (initial_state ''2024-05-02'')\<lparr>classes := [ex_class], selectedClass := Some ex_class\<rparr>"

definition ex_rows :: "attendance_row list" where
  "ex_rows = [\<lparr>row_id = ''r99'', row_student_id = ''s2'', row_status = Some ''absent'',
                row_notes = Some ''sick''\<rparr>,
              \<lparr>row_id = ''r77'', row_student_id = ''s3'', row_status = Some ''present'',
                row_notes = None\<rparr>]"

definition ex_roster :: "roster_row list" where
  "ex_roster = [\<lparr>rr_id = ''s1'', rr_student_number = ''1001'', rr_first_name = ''Alice'',
                  rr_last_name = ''Adams''\<rparr>,
                \<lparr>rr_id = ''s2'', rr_student_number = ''1002'', rr_first_name = ''Bob'',
                  rr_last_name = ''Brown''\<rparr>]"

text \<open>The page after the load of 2 May has succeeded.\<close>

definition ex_loaded :: page_state where
  "ex_loaded = ex_selected\<lparr>students := ex_roster, loading := False,
     existingRecords := [(''s2'', ''r99''), (''s3'', ''r77'')],
     attendance := [(''s2'', \<lparr>entry_status = Some ''absent'', entry_notes = Some ''sick''\<rparr>),
                    (''s3'', \<lparr>entry_status = Some ''present'', entry_notes = Some []\<rparr>)]\<rparr>"

text \<open>A reply counts as failed when the call threw or returned an error.\<close>

fun failed :: "'a reply \<Rightarrow> bool" where
  "failed Thrown = True"
| "failed (ErrorReply e) = True"
| "failed (DataReply d) = False"

section \<open>Notions used in the statements\<close>

text \<open>Every record identifier held in an existing-id object is a non-empty string, as the
  identifiers issued by the store and the placeholder \<open>'new'\<close> are.\<close>

definition ids_valid :: "string obj \<Rightarrow> bool" where
  "ids_valid existing = list_all (\<lambda>p. snd p \<noteq> []) existing"

text \<open>A save goes through: a class is selected, a user is signed in, the question about
  unmarked students (if asked) is answered yes, and no call to the store fails.\<close>

definition saveSucceeds ::
  "'s remote \<Rightarrow> (nat \<Rightarrow> string) \<Rightarrow> string option \<Rightarrow> bool \<Rightarrow> page_state \<times> 's \<Rightarrow> bool" where
  "saveSucceeds exec clock user confirmed w =
     (case selectedClass (fst w) of
        None \<Rightarrow> False
      | Some cls \<Rightarrow>
         (case user of
            None \<Rightarrow> False
          | Some userId \<Rightarrow>
              (unmarkedStudents (fst w) = [] \<or> confirmed) \<and>
              fst (persist exec clock
                     (fst (computeSubmission (cls_id cls) userId (currentDate (fst w))
                             (attendance (fst w)) (existingRecords (fst w))))
                     (snd (computeSubmission (cls_id cls) userId (currentDate (fst w))
                             (attendance (fst w)) (existingRecords (fst w))))
                     (snd w)) = None))"

text \<open>The page of 2 May after the teacher has set Bob to late, Alice to present, and has
  typed a note for a student without choosing a status.\<close>

definition ex_edited :: page_state where
  "ex_edited = ex_loaded\<lparr>hasChanges := True,
     existingRecords := [(''s2'', ''r99'')],
     attendance := [(''s2'', \<lparr>entry_status = Some ''late'', entry_notes = Some ''sick''\<rparr>),
                    (''s1'', \<lparr>entry_status = Some ''present'', entry_notes = None\<rparr>),
                    (''s4'', \<lparr>entry_status = None, entry_notes = Some ''called home''\<rparr>)]\<rparr>"

text \<open>The calls a submission plans: the batched insert when there is something to insert,
  then one update per record to update, in order; round \<open>n\<close> of the loop reads the time
  \<open>clock n\<close>.\<close>

definition updateCallOf :: "(nat \<Rightarrow> string) \<Rightarrow> nat \<times> update_record \<Rightarrow> call" where
  "updateCallOf clock ir =
     UpdateCall (ur_id (snd ir)) (sr_status (snd ir)) (sr_notes (snd ir)) (clock (fst ir))"

definition updateCalls :: "(nat \<Rightarrow> string) \<Rightarrow> nat \<Rightarrow> update_record list \<Rightarrow> call list" where
  "updateCalls clock n rs = map (updateCallOf clock) (enumerate n rs)"

definition plannedCalls :: "(nat \<Rightarrow> string) \<Rightarrow> save_record list \<Rightarrow> update_record list \<Rightarrow> call list" where
  "plannedCalls clock recordsToSave recordsToUpdate =
     (if recordsToSave \<noteq> [] then [InsertCall recordsToSave] else [])
     @ updateCalls clock 0 recordsToUpdate"

text \<open>The store after a list of calls has been sent to it, one after the other.\<close>

definition applyCalls :: "'s remote \<Rightarrow> call list \<Rightarrow> 's \<Rightarrow> 's" where
  "applyCalls exec cs db = fold (\<lambda>c s. snd (exec c s)) cs db"

text \<open>Sending a list of calls one at a time and stopping at the first that fails.\<close>

fun issueInOrder :: "'s remote \<Rightarrow> call list \<Rightarrow> 's \<Rightarrow> string option \<times> 's \<times> call list" where
  "issueInOrder exec [] db = (None, db, [])"
| "issueInOrder exec (c # cs) db =
     (case fst (exec c db) of
        Some err \<Rightarrow> (Some err, snd (exec c db), [c])
      | None \<Rightarrow>
          (fst (issueInOrder exec cs (snd (exec c db))),
           fst (snd (issueInOrder exec cs (snd (exec c db)))),
           c # snd (snd (issueInOrder exec cs (snd (exec c db))))))"

text \<open>When the load effect and the bulk operation go through.\<close>

definition loadSucceeds :: "page_state \<Rightarrow> roster_row reply \<Rightarrow> attendance_row reply \<Rightarrow> bool" where
  "loadSucceeds st studentsReply attendanceReply =
     (selectedClass st \<noteq> None \<and> \<not> failed studentsReply \<and> \<not> failed attendanceReply)"

definition quickMarkApplies :: "page_state \<Rightarrow> bool \<Rightarrow> bool" where
  "quickMarkApplies st confirmed = (selectedClass st \<noteq> None \<and> students st \<noteq> [] \<and> confirmed)"

text \<open>A remote store for the concrete runs: it keeps the calls it has accepted, and rejects
  an update of the record \<open>gone\<close>.\<close>

fun ex_remote :: "call list remote" where
  "ex_remote (InsertCall rs) accepted = (None, accepted @ [InsertCall rs])"
| "ex_remote (UpdateCall rid st_val nt t) accepted =
     (if rid = ''gone'' then (Some ''no such record'', accepted)
      else (None, accepted @ [UpdateCall rid st_val nt t]))"

definition ex_clock :: "nat \<Rightarrow> string" where
  "ex_clock n = (if n = 0 then ''09:00:00'' else if n = 1 then ''09:00:01'' else ''09:00:02'')"

definition ex_insert :: save_record where
  "ex_insert = \<lparr>sr_student_id = ''s1'', sr_class_id = ''c1'', sr_teacher_id = ''t1'',
     sr_attendance_date = ''2024-05-02'', sr_status = ''present'', sr_notes = None\<rparr>"

definition ex_update :: "string \<Rightarrow> string \<Rightarrow> update_record" where
  "ex_update sid rid = \<lparr>sr_student_id = sid, sr_class_id = ''c1'', sr_teacher_id = ''t1'',
     sr_attendance_date = ''2024-05-02'', sr_status = ''late'', sr_notes = None, ur_id = rid\<rparr>"

definition ex_updates :: "update_record list" where
  "ex_updates = [ex_update ''s2'' ''r99'', ex_update ''s5'' ''gone'', ex_update ''s6'' ''r50'']"

section \<open>Properties of objects\<close>

lemma map_of_obj_set: "map_of (obj_set k v ob) = (map_of ob)(k \<mapsto> v)"
  by (induction ob) (auto simp: fun_eq_iff)

lemma obj_get_obj_set: "obj_get (obj_set k v ob) k' = (if k' = k then Some v else obj_get ob k')"
  by (simp add: obj_get_def map_of_obj_set)

lemma obj_keys_dom: "obj_keys ob = dom (map_of ob)"
  by (simp add: obj_keys_def dom_map_of_conv_image_fst)

lemma obj_keys_obj_set: "obj_keys (obj_set k v ob) = insert k (obj_keys ob)"
  by (simp add: obj_keys_dom map_of_obj_set)

lemma distinct_obj_set: "distinct (map fst ob) \<Longrightarrow> distinct (map fst (obj_set k v ob))"
proof (induction ob)
  case Nil
  then show ?case by simp
next
  case (Cons p ps)
  have "fst ` set (obj_set k v ps) = insert k (fst ` set ps)"
    using obj_keys_obj_set [of k v ps] by (simp add: obj_keys_def)
  with Cons show ?case by (cases p) auto
qed

lemma obj_get_None_iff: "obj_get ob k = None \<longleftrightarrow> k \<notin> obj_keys ob"
  by (simp add: obj_get_def obj_keys_def map_of_eq_None_iff)


section \<open>Properties of the load\<close>

lemma fst_recordStep: "fst (recordStep r acc) = obj_set (row_student_id r) (row_id r) (fst acc)"
  by (simp add: recordStep_def)

lemma snd_recordStep:
  "snd (recordStep r acc) =
     obj_set (row_student_id r)
       \<lparr>entry_status = row_status r, entry_notes = Some (or_empty (row_notes r))\<rparr> (snd acc)"
  by (simp add: recordStep_def)

lemma fold_recordStep_keys:
  "obj_keys (fst (fold recordStep rows acc)) = obj_keys (fst acc) \<union> row_student_id ` set rows \<and>
   obj_keys (snd (fold recordStep rows acc)) = obj_keys (snd acc) \<union> row_student_id ` set rows"
  by (induction rows arbitrary: acc) (auto simp: fst_recordStep snd_recordStep obj_keys_obj_set)

lemma fold_recordStep_other:
  assumes "k \<notin> row_student_id ` set rows"
  shows "obj_get (fst (fold recordStep rows acc)) k = obj_get (fst acc) k \<and>
         obj_get (snd (fold recordStep rows acc)) k = obj_get (snd acc) k"
  using assms
  by (induction rows arbitrary: acc) (auto simp: fst_recordStep snd_recordStep obj_get_obj_set)

lemma fold_recordStep_entry:
  assumes "distinct (map row_student_id rows)" and "r \<in> set rows"
  shows "obj_get (fst (fold recordStep rows acc)) (row_student_id r) = Some (row_id r) \<and>
         obj_get (snd (fold recordStep rows acc)) (row_student_id r) =
           Some \<lparr>entry_status = row_status r, entry_notes = Some (or_empty (row_notes r))\<rparr>"
  using assms
proof (induction rows arbitrary: acc)
  case Nil
  then show ?case by simp
next
  case (Cons a rows)
  show ?case
  proof (cases "r = a")
    case True
    from Cons.prems have "row_student_id a \<notin> row_student_id ` set rows" by simp
    from fold_recordStep_other [OF this, of "recordStep a acc"] True
    show ?thesis by (simp add: fst_recordStep snd_recordStep obj_get_obj_set)
  next
    case False
    with Cons.prems have "distinct (map row_student_id rows)" and "r \<in> set rows" by simp_all
    from Cons.IH [OF this, of "recordStep a acc"] show ?thesis by simp
  qed
qed

lemma load_success:
  assumes "selectedClass st = Some cls"
  shows "loadStudentsAndAttendance st (DataReply R) (DataReply E) =
         st\<lparr>students := or_nil R, existingRecords := fst (buildEditableState (or_nil E)),
            attendance := snd (buildEditableState (or_nil E)), hasChanges := False,
            loading := False\<rparr>"
  using assms by (simp add: loadStudentsAndAttendance_def Let_def)

text \<open>
  Claim C2. For every fetched list \<open>E\<close> of existing attendance rows (at most one per
  student, as the store guarantees for one date), the load effect builds an editable
  object in which every student of \<open>E\<close> has the entry made from that student's row: the
  row's status, and the row's notes with \<open>null\<close> read as the empty text
  (\<open>record.notes || ''\<close>); the existing-id object maps the student to the row's
  identifier. A student with no row in \<open>E\<close> has no entry, and every key of the
  existing-id object is a key of the editable object.
\<close>

theorem load_builds_editable_state:
  assumes "selectedClass st = Some cls" and "distinct (map row_student_id E)"
  shows "(\<forall>r \<in> set E.
            obj_get (attendance (loadStudentsAndAttendance st (DataReply R) (DataReply (Some E))))
              (row_student_id r)
              = Some \<lparr>entry_status = row_status r, entry_notes = Some (or_empty (row_notes r))\<rparr> \<and>
            obj_get (existingRecords (loadStudentsAndAttendance st (DataReply R) (DataReply (Some E))))
              (row_student_id r) = Some (row_id r)) \<and>
         (\<forall>k. k \<notin> row_student_id ` set E \<longrightarrow>
            obj_get (attendance (loadStudentsAndAttendance st (DataReply R) (DataReply (Some E)))) k
              = None) \<and>
         obj_keys (existingRecords (loadStudentsAndAttendance st (DataReply R) (DataReply (Some E))))
           \<subseteq> obj_keys (attendance (loadStudentsAndAttendance st (DataReply R) (DataReply (Some E))))"
proof -
  have entries: "\<And>r. r \<in> set E \<Longrightarrow>
      obj_get (snd (buildEditableState E)) (row_student_id r)
        = Some \<lparr>entry_status = row_status r, entry_notes = Some (or_empty (row_notes r))\<rparr> \<and>
      obj_get (fst (buildEditableState E)) (row_student_id r) = Some (row_id r)"
    using fold_recordStep_entry [OF assms(2)] by (simp add: buildEditableState_def)
  have others: "\<And>k. k \<notin> row_student_id ` set E \<Longrightarrow> obj_get (snd (buildEditableState E)) k = None"
    using fold_recordStep_other [of _ E "([], [])"]
    by (simp add: buildEditableState_def obj_get_def)
  have keys: "obj_keys (fst (buildEditableState E)) = obj_keys (snd (buildEditableState E))"
    using fold_recordStep_keys [of E "([], [])"] by (simp add: buildEditableState_def obj_keys_def)
  show ?thesis
    using entries others keys by (simp add: load_success [OF assms(1)] or_nil_def)
qed

theorem load_builds_editable_state_witness:
  "selectedClass ex_selected = Some ex_class \<and> distinct (map row_student_id ex_rows) \<and>
   obj_get (attendance (loadStudentsAndAttendance ex_selected (DataReply (Some ex_roster))
                          (DataReply (Some ex_rows)))) ''s2''
     = Some \<lparr>entry_status = Some ''absent'', entry_notes = Some ''sick''\<rparr> \<and>
   obj_get (attendance (loadStudentsAndAttendance ex_selected (DataReply (Some ex_roster))
                          (DataReply (Some ex_rows)))) ''s1'' = None"
proof -
  have h1: "selectedClass ex_selected = Some ex_class" by (simp add: ex_selected_def)
  have h2: "distinct (map row_student_id ex_rows)" by (simp add: ex_rows_def)
  show ?thesis
    using h1 h2 load_builds_editable_state [OF h1 h2, of "Some ex_roster"]
    by (auto simp: ex_rows_def or_empty_def)
qed

text \<open>
  Claim C8, as the code has it. If the roster fetch or the existing-attendance fetch
  fails (the call throws or returns an error), the failure is shown to the user as an
  error toast, and the editable attendance object, the existing-id object and the dirty
  flag are left as they were: nothing of the failed load is installed. The editable object
  is therefore empty after a failed load only if it was empty before.
\<close>

theorem load_failure_keeps_state:
  assumes "selectedClass st = Some cls" and "failed studentsReply \<or> failed attendanceReply"
  shows "attendance (loadStudentsAndAttendance st studentsReply attendanceReply) = attendance st \<and>
         existingRecords (loadStudentsAndAttendance st studentsReply attendanceReply)
           = existingRecords st \<and>
         hasChanges (loadStudentsAndAttendance st studentsReply attendanceReply) = hasChanges st \<and>
         (\<exists>msg. toasts (loadStudentsAndAttendance st studentsReply attendanceReply)
                  = toasts st @ [ToastError msg])"
proof (cases studentsReply)
  case Thrown
  with assms(1) show ?thesis by (simp add: loadStudentsAndAttendance_def)
next
  case (ErrorReply e)
  with assms(1) show ?thesis by (simp add: loadStudentsAndAttendance_def)
next
  case (DataReply R)
  with assms(2) have "failed attendanceReply" by simp
  with assms(1) DataReply show ?thesis
    by (cases attendanceReply) (simp_all add: loadStudentsAndAttendance_def Let_def)
qed

theorem load_failure_keeps_state_witness:
  "selectedClass ex_loaded = Some ex_class \<and>
   (failed (DataReply (Some ex_roster)) \<or> failed (ErrorReply ''timeout'' :: attendance_row reply)) \<and>
   attendance (loadStudentsAndAttendance ex_loaded (DataReply (Some ex_roster)) (ErrorReply ''timeout''))
     = attendance ex_loaded \<and>
   toasts (loadStudentsAndAttendance ex_loaded (DataReply (Some ex_roster)) (ErrorReply ''timeout''))
     = toasts ex_loaded @ [ToastError ''Failed to load existing attendance'']"
proof -
  have h1: "selectedClass ex_loaded = Some ex_class" by (simp add: ex_loaded_def ex_selected_def)
  have h2: "failed (DataReply (Some ex_roster)) \<or> failed (ErrorReply ''timeout'' :: attendance_row reply)"
    by simp
  show ?thesis
    using h1 h2 load_failure_keeps_state [OF h1 h2]
    by (simp add: loadStudentsAndAttendance_def Let_def)
qed

text \<open>
  The claim as written (the editable object is left empty) fails once a load has
  succeeded: the teacher moves from 2 May to 3 May, the attendance fetch for 3 May fails,
  and the entries loaded for 2 May stay in the editable object.
\<close>

theorem load_failure_not_empty_counterexample:
  "failed (ErrorReply ''timeout'' :: attendance_row reply) \<and>
   attendance (loadStudentsAndAttendance (dateChange ex_loaded ''2024-05-03'')
                 (DataReply (Some ex_roster)) (ErrorReply ''timeout''))
     = [(''s2'', \<lparr>entry_status = Some ''absent'', entry_notes = Some ''sick''\<rparr>),
        (''s3'', \<lparr>entry_status = Some ''present'', entry_notes = Some []\<rparr>)] \<and>
   attendance (loadStudentsAndAttendance (dateChange ex_loaded ''2024-05-03'')
                 (DataReply (Some ex_roster)) (ErrorReply ''timeout'')) \<noteq> []"
  by (simp add: loadStudentsAndAttendance_def dateChange_def ex_loaded_def ex_selected_def
      initial_state_def Let_def)

text \<open>
  Claim C7, as the code has it. For every load of a (class, date) pair from the store,
  the roster holds exactly the active students of the selected class, and the editable
  object has an entry exactly for the students with a stored attendance record of that
  class and date. The editable object is built from the records alone and is not
  restricted to the roster.
\<close>

theorem load_roster_and_entries:
  assumes "selectedClass st = Some cls"
  shows "rr_id ` set (students (loadFromStore st db))
           = stu_id ` {s \<in> set (students_tbl db). stu_class_id s = cls_id cls \<and> stu_is_active s} \<and>
         obj_keys (attendance (loadFromStore st db))
           = ar_student_id ` {r \<in> set (attendance_tbl db).
                ar_class_id r = cls_id cls \<and> ar_attendance_date r = currentDate st}"
proof -
  have roster: "rr_id ` set (fetchRoster db (cls_id cls))
      = stu_id ` {s \<in> set (students_tbl db). stu_class_id s = cls_id cls \<and> stu_is_active s}"
    by (auto simp: fetchRoster_def select_roster_def image_iff)
  have recs: "row_student_id ` set (fetchAttendance db (cls_id cls) (currentDate st))
      = ar_student_id ` {r \<in> set (attendance_tbl db).
                ar_class_id r = cls_id cls \<and> ar_attendance_date r = currentDate st}"
    by (auto simp: fetchAttendance_def select_attendance_def image_iff)
  have keys: "obj_keys (snd (buildEditableState rows)) = row_student_id ` set rows" for rows
    using fold_recordStep_keys [of rows "([], [])"] by (simp add: buildEditableState_def obj_keys_def)
  show ?thesis
    using assms roster recs
    by (simp add: loadFromStore_def load_success [OF assms] or_nil_def keys)
qed

theorem load_roster_and_entries_witness:
  "selectedClass ex_selected = Some ex_class \<and>
   rr_id ` set (students (loadFromStore ex_selected ex_db)) = {''s1'', ''s2''} \<and>
   obj_keys (attendance (loadFromStore ex_selected ex_db)) = {''s2'', ''s3''}"
proof -
  have h1: "selectedClass ex_selected = Some ex_class" by (simp add: ex_selected_def)
  have l: "loadFromStore ex_selected ex_db = ex_loaded"
    by (simp add: loadFromStore_def ex_selected_def ex_db_def ex_loaded_def initial_state_def
        fetchRoster_def fetchAttendance_def ex_class_def ex_alice_def ex_bob_def ex_carol_def
        select_roster_def select_attendance_def loadStudentsAndAttendance_def or_nil_def
        buildEditableState_def recordStep_def or_empty_def ex_roster_def)
  show ?thesis
    using h1 load_roster_and_entries [OF h1, of ex_db]
    by (auto simp: l ex_loaded_def ex_roster_def obj_keys_def)
qed

text \<open>
  The claim as written fails: Carol is inactive, so she is not in the roster, but her
  record of 2 May in class c1 gives her an entry in the editable object.
\<close>

theorem load_inactive_student_counterexample:
  "\<not> stu_is_active ex_carol \<and> ex_carol \<in> set (students_tbl ex_db) \<and>
   stu_id ex_carol \<notin> rr_id ` set (students (loadFromStore ex_selected ex_db)) \<and>
   obj_get (attendance (loadFromStore ex_selected ex_db)) (stu_id ex_carol)
     = Some \<lparr>entry_status = Some ''present'', entry_notes = Some []\<rparr>"
proof -
  have l: "loadFromStore ex_selected ex_db = ex_loaded"
    by (simp add: loadFromStore_def ex_selected_def ex_db_def ex_loaded_def initial_state_def
        fetchRoster_def fetchAttendance_def ex_class_def ex_alice_def ex_bob_def ex_carol_def
        select_roster_def select_attendance_def loadStudentsAndAttendance_def or_nil_def
        buildEditableState_def recordStep_def or_empty_def ex_roster_def)
  have m: "ex_carol \<in> set (students_tbl ex_db)" by (simp add: ex_db_def)
  show ?thesis
    using m by (simp add: l ex_loaded_def ex_roster_def ex_carol_def obj_get_def)
qed


section \<open>Properties of the bulk status operation\<close>

lemma obj_get_quickMarkStep:
  "obj_get (quickMarkStep st_new att s acc) k =
     (if k = rr_id s
      then Some \<lparr>entry_status = Some st_new, entry_notes = Some (or_empty (notesOf att k))\<rparr>
      else obj_get acc k)"
  by (simp add: quickMarkStep_def obj_get_obj_set)

lemma obj_keys_quickMarkStep:
  "obj_keys (quickMarkStep st_new att s acc) = insert (rr_id s) (obj_keys acc)"
  by (simp add: quickMarkStep_def obj_keys_obj_set)

lemma obj_get_fold_quickMarkStep:
  "obj_get (fold (quickMarkStep st_new att) roster acc) k =
     (if k \<in> rr_id ` set roster
      then Some \<lparr>entry_status = Some st_new, entry_notes = Some (or_empty (notesOf att k))\<rparr>
      else obj_get acc k)"
proof (induction roster arbitrary: acc)
  case Nil
  show ?case by simp
next
  case (Cons s roster)
  have "obj_get (fold (quickMarkStep st_new att) (s # roster) acc) k
        = obj_get (fold (quickMarkStep st_new att) roster (quickMarkStep st_new att s acc)) k"
    by simp
  also have "\<dots> = (if k \<in> rr_id ` set roster
      then Some \<lparr>entry_status = Some st_new, entry_notes = Some (or_empty (notesOf att k))\<rparr>
      else obj_get (quickMarkStep st_new att s acc) k)"
    by (rule Cons.IH)
  finally show ?case by (simp add: obj_get_quickMarkStep)
qed

lemma obj_keys_fold_quickMarkStep:
  "obj_keys (fold (quickMarkStep st_new att) roster acc) = obj_keys acc \<union> rr_id ` set roster"
proof (induction roster arbitrary: acc)
  case Nil
  show ?case by simp
next
  case (Cons s roster)
  have "obj_keys (fold (quickMarkStep st_new att) (s # roster) acc)
        = obj_keys (quickMarkStep st_new att s acc) \<union> rr_id ` set roster"
    using Cons.IH [of "quickMarkStep st_new att s acc"] by simp
  then show ?case by (simp add: obj_keys_quickMarkStep)
qed

lemma handleQuickMark_confirmed:
  assumes "selectedClass st = Some cls" and "students st \<noteq> []"
  shows "handleQuickMark st st_new True =
         st\<lparr>attendance := fold (quickMarkStep st_new (attendance st)) (students st) [],
            hasChanges := True,
            toasts := toasts st @ [ToastSuccess (''All students marked as '' @ st_new)],
            prompts := prompts st @ [ConfirmQuickMark st_new]\<rparr>"
  using assms by (simp add: handleQuickMark_def)

text \<open>
  Claim C3. Once confirmed, on a page with a class selected, the bulk status operation
  gives every student \<open>s\<close> of the roster the entry with the chosen status and with the
  notes the student had before (\<open>attendance[student.id]?.notes || ''\<close>: notes that were
  unset read as the empty text, which is how the page reads them everywhere). So the
  status of every roster student is the chosen one, the notes text of every roster
  student is what it was, and the state is marked dirty.
\<close>

theorem quick_mark_sets_status_keeps_notes:
  assumes "selectedClass st = Some cls" and "s \<in> set (students st)"
  shows "obj_get (attendance (handleQuickMark st st_new True)) (rr_id s)
           = Some \<lparr>entry_status = Some st_new,
                   entry_notes = Some (or_empty (notesOf (attendance st) (rr_id s)))\<rparr> \<and>
         statusOf (attendance (handleQuickMark st st_new True)) (rr_id s) = Some st_new \<and>
         or_empty (notesOf (attendance (handleQuickMark st st_new True)) (rr_id s))
           = or_empty (notesOf (attendance st) (rr_id s)) \<and>
         hasChanges (handleQuickMark st st_new True)"
proof -
  from assms(2) have ne: "students st \<noteq> []" by auto
  have get: "obj_get (attendance (handleQuickMark st st_new True)) (rr_id s)
           = Some \<lparr>entry_status = Some st_new,
                   entry_notes = Some (or_empty (notesOf (attendance st) (rr_id s)))\<rparr>"
    using assms(2)
    by (simp add: handleQuickMark_confirmed [OF assms(1) ne] obj_get_fold_quickMarkStep)
  have dirty: "hasChanges (handleQuickMark st st_new True)"
    by (simp add: handleQuickMark_confirmed [OF assms(1) ne])
  show ?thesis
    using get dirty by (simp add: statusOf_def notesOf_def or_empty_def)
qed

theorem quick_mark_sets_status_keeps_notes_witness:
  "selectedClass ex_loaded = Some ex_class \<and>
   \<lparr>rr_id = ''s2'', rr_student_number = ''1002'', rr_first_name = ''Bob'',
     rr_last_name = ''Brown''\<rparr> \<in> set (students ex_loaded) \<and>
   obj_get (attendance ex_loaded) ''s2''
     = Some \<lparr>entry_status = Some ''absent'', entry_notes = Some ''sick''\<rparr> \<and>
   obj_get (attendance (handleQuickMark ex_loaded ''present'' True)) ''s2''
     = Some \<lparr>entry_status = Some ''present'', entry_notes = Some ''sick''\<rparr> \<and>
   hasChanges (handleQuickMark ex_loaded ''present'' True)"
proof -
  have h1: "selectedClass ex_loaded = Some ex_class" by (simp add: ex_loaded_def ex_selected_def)
  have h2: "\<lparr>rr_id = ''s2'', rr_student_number = ''1002'', rr_first_name = ''Bob'',
     rr_last_name = ''Brown''\<rparr> \<in> set (students ex_loaded)"
    by (simp add: ex_loaded_def ex_roster_def)
  have before: "obj_get (attendance ex_loaded) ''s2''
     = Some \<lparr>entry_status = Some ''absent'', entry_notes = Some ''sick''\<rparr>"
    by (simp add: ex_loaded_def obj_get_def)
  show ?thesis
    using h1 h2 before quick_mark_sets_status_keeps_notes [OF h1 h2, of "''present''"]
    by (simp add: notesOf_def or_empty_def)
qed

text \<open>
  Claim C10. Once confirmed, on a page with a class selected and a roster that is not
  empty, the bulk status operation replaces the whole editable object: its keys are then
  exactly the identifiers of the students of the roster, so an entry of a student outside
  the roster is gone.
\<close>

theorem quick_mark_replaces_map:
  assumes "selectedClass st = Some cls" and "students st \<noteq> []"
  shows "obj_keys (attendance (handleQuickMark st st_new True)) = rr_id ` set (students st)"
proof -
  have "obj_keys ([] :: entry obj) = {}" by (simp add: obj_keys_def)
  then show ?thesis
    by (simp add: handleQuickMark_confirmed [OF assms] obj_keys_fold_quickMarkStep)
qed

theorem quick_mark_replaces_map_witness:
  "selectedClass ex_loaded = Some ex_class \<and> students ex_loaded \<noteq> [] \<and>
   obj_keys (attendance ex_loaded) = {''s2'', ''s3''} \<and>
   obj_keys (attendance (handleQuickMark ex_loaded ''present'' True)) = {''s1'', ''s2''}"
proof -
  have h1: "selectedClass ex_loaded = Some ex_class" by (simp add: ex_loaded_def ex_selected_def)
  have h2: "students ex_loaded \<noteq> []" by (simp add: ex_loaded_def ex_roster_def)
  have before: "obj_keys (attendance ex_loaded) = {''s2'', ''s3''}"
    by (simp add: ex_loaded_def obj_keys_def)
  have roster: "rr_id ` set (students ex_loaded) = {''s1'', ''s2''}"
    by (simp add: ex_loaded_def ex_roster_def)
  show ?thesis
    using h1 h2 before quick_mark_replaces_map [OF h1 h2, of "''present''"]
    by (simp add: roster)
qed


section \<open>Properties of the submission\<close>

lemma submitStep_unfold:
  "submitStep cid uid d ex p acc =
     (if \<not> truthy (entry_status (snd p)) then acc
      else if truthy (obj_get ex (fst p))
      then (fst acc,
            snd acc @ [\<lparr>sr_student_id = fst p, sr_class_id = cid, sr_teacher_id = uid,
                         sr_attendance_date = d, sr_status = or_empty (entry_status (snd p)),
                         sr_notes = or_null (entry_notes (snd p)),
                         ur_id = or_empty (obj_get ex (fst p))\<rparr>])
      else (fst acc @ [\<lparr>sr_student_id = fst p, sr_class_id = cid, sr_teacher_id = uid,
                         sr_attendance_date = d, sr_status = or_empty (entry_status (snd p)),
                         sr_notes = or_null (entry_notes (snd p))\<rparr>],
            snd acc))"
  by (simp add: submitStep_def recordData_def withId_def Let_def)

lemma fold_submitStep:
  "fold (submitStep cid uid d ex) att acc =
     (fst acc @
        map (\<lambda>p. \<lparr>sr_student_id = fst p, sr_class_id = cid, sr_teacher_id = uid,
                   sr_attendance_date = d, sr_status = or_empty (entry_status (snd p)),
                   sr_notes = or_null (entry_notes (snd p))\<rparr>)
          (filter (\<lambda>p. truthy (entry_status (snd p)) \<and> \<not> truthy (obj_get ex (fst p))) att),
      snd acc @
        map (\<lambda>p. \<lparr>sr_student_id = fst p, sr_class_id = cid, sr_teacher_id = uid,
                   sr_attendance_date = d, sr_status = or_empty (entry_status (snd p)),
                   sr_notes = or_null (entry_notes (snd p)),
                   ur_id = or_empty (obj_get ex (fst p))\<rparr>)
          (filter (\<lambda>p. truthy (entry_status (snd p)) \<and> truthy (obj_get ex (fst p))) att))"
  (is "fold ?f att acc = (fst acc @ map ?I (filter ?PI att), snd acc @ map ?U (filter ?PU att))")
proof (induction att arbitrary: acc)
  case Nil
  show ?case by simp
next
  case (Cons p att)
  have "fold ?f (p # att) acc = fold ?f att (?f p acc)"
    by simp
  also have "\<dots> = (fst (?f p acc) @ map ?I (filter ?PI att), snd (?f p acc) @ map ?U (filter ?PU att))"
    by (rule Cons.IH)
  also have "\<dots> = (fst acc @ map ?I (filter ?PI (p # att)), snd acc @ map ?U (filter ?PU (p # att)))"
    by (simp add: submitStep_unfold)
  finally show ?case .
qed

lemma ids_valid_truthy: "ids_valid ex \<Longrightarrow> truthy (obj_get ex k) \<longleftrightarrow> k \<in> obj_keys ex"
  by (induction ex) (auto simp: ids_valid_def obj_get_def obj_keys_def)

text \<open>
  Claim C1. For every editable attendance object and every existing-id object (whose
  values are record identifiers, hence non-empty), the submission computed by
  \<open>handleSaveAttendance\<close> consists of exactly the entries with a non-empty status, in
  the order of the object: the entries whose student is a key of the existing-id object
  are the updates, each with its record identifier, status and notes; all other entries
  are the inserts, each with student, class, teacher, date, status and notes (empty notes
  are sent as \<open>null\<close>). An entry whose status is unset or empty is in neither list.
\<close>

theorem submission_partition:
  assumes "ids_valid ex"
  shows "fst (computeSubmission cid uid d att ex) =
           map (\<lambda>p. \<lparr>sr_student_id = fst p, sr_class_id = cid, sr_teacher_id = uid,
                      sr_attendance_date = d, sr_status = or_empty (entry_status (snd p)),
                      sr_notes = or_null (entry_notes (snd p))\<rparr>)
             (filter (\<lambda>p. truthy (entry_status (snd p)) \<and> fst p \<notin> obj_keys ex) att) \<and>
         snd (computeSubmission cid uid d att ex) =
           map (\<lambda>p. \<lparr>sr_student_id = fst p, sr_class_id = cid, sr_teacher_id = uid,
                      sr_attendance_date = d, sr_status = or_empty (entry_status (snd p)),
                      sr_notes = or_null (entry_notes (snd p)),
                      ur_id = or_empty (obj_get ex (fst p))\<rparr>)
             (filter (\<lambda>p. truthy (entry_status (snd p)) \<and> fst p \<in> obj_keys ex) att)"
  by (simp add: computeSubmission_def fold_submitStep ids_valid_truthy [OF assms])

theorem submission_partition_witness:
  "ids_valid (existingRecords ex_edited) \<and>
   computeSubmission ''c1'' ''t1'' ''2024-05-02'' (attendance ex_edited) (existingRecords ex_edited)
     = ([\<lparr>sr_student_id = ''s1'', sr_class_id = ''c1'', sr_teacher_id = ''t1'',
           sr_attendance_date = ''2024-05-02'', sr_status = ''present'', sr_notes = None\<rparr>],
        [\<lparr>sr_student_id = ''s2'', sr_class_id = ''c1'', sr_teacher_id = ''t1'',
           sr_attendance_date = ''2024-05-02'', sr_status = ''late'', sr_notes = Some ''sick'',
           ur_id = ''r99''\<rparr>])"
proof -
  have h: "ids_valid (existingRecords ex_edited)" by (simp add: ex_edited_def ids_valid_def)
  have att: "attendance ex_edited =
      [(''s2'', \<lparr>entry_status = Some ''late'', entry_notes = Some ''sick''\<rparr>),
       (''s1'', \<lparr>entry_status = Some ''present'', entry_notes = None\<rparr>),
       (''s4'', \<lparr>entry_status = None, entry_notes = Some ''called home''\<rparr>)]"
    and ex: "existingRecords ex_edited = [(''s2'', ''r99'')]"
    by (simp_all add: ex_edited_def)
  show ?thesis
    using h submission_partition [OF h, of "''c1''" "''t1''" "''2024-05-02''" "attendance ex_edited"]
    by (simp add: prod_eq_iff att ex obj_keys_def obj_get_def or_empty_def or_null_def)
qed


section \<open>Properties of the rebuild after a save\<close>

lemma obj_get_rebuildStep:
  "obj_get (rebuildStep ex p acc) k =
     (if fst p = k \<and> (truthy (entry_status (snd p)) \<or> truthy (obj_get ex k))
      then Some (if truthy (obj_get ex k) then or_empty (obj_get ex k) else ''new'')
      else obj_get acc k)"
  by (auto simp: rebuildStep_def obj_get_obj_set)

lemma obj_get_fold_rebuildStep:
  "obj_get (fold (rebuildStep ex) att acc) k =
     (if \<exists>p \<in> set att. fst p = k \<and> (truthy (entry_status (snd p)) \<or> truthy (obj_get ex k))
      then Some (if truthy (obj_get ex k) then or_empty (obj_get ex k) else ''new'')
      else obj_get acc k)"
proof (induction att arbitrary: acc)
  case Nil
  show ?case by simp
next
  case (Cons p att)
  have "obj_get (fold (rebuildStep ex) (p # att) acc) k
        = obj_get (fold (rebuildStep ex) att (rebuildStep ex p acc)) k"
    by simp
  also have "\<dots> =
     (if \<exists>p \<in> set att. fst p = k \<and> (truthy (entry_status (snd p)) \<or> truthy (obj_get ex k))
      then Some (if truthy (obj_get ex k) then or_empty (obj_get ex k) else ''new'')
      else obj_get (rebuildStep ex p acc) k)"
    by (rule Cons.IH)
  finally show ?case by (auto simp: obj_get_rebuildStep)
qed

lemma obj_get_rebuildExisting:
  "obj_get (rebuildExisting att ex) k =
     (if \<exists>p \<in> set att. fst p = k \<and> (truthy (entry_status (snd p)) \<or> truthy (obj_get ex k))
      then Some (if truthy (obj_get ex k) then or_empty (obj_get ex k) else ''new'')
      else None)"
  by (simp add: rebuildExisting_def obj_get_fold_rebuildStep) (simp add: obj_get_def)

lemma or_empty_Some: "or_empty (Some s) = s"
  by (simp add: or_empty_def)

lemma truthy_or_empty: "truthy x \<Longrightarrow> or_empty x \<noteq> []"
  by (cases x) (simp_all add: or_empty_def)

lemma ids_valid_obj_set: "ids_valid ob \<Longrightarrow> v \<noteq> [] \<Longrightarrow> ids_valid (obj_set k v ob)"
  by (induction ob) (auto simp: ids_valid_def)

lemma ids_valid_fold_rebuildStep:
  "ids_valid acc \<Longrightarrow> ids_valid (fold (rebuildStep ex) att acc)"
proof (induction att arbitrary: acc)
  case Nil
  then show ?case by simp
next
  case (Cons p att)
  have "ids_valid (rebuildStep ex p acc)"
    using Cons.prems by (simp add: rebuildStep_def ids_valid_obj_set truthy_or_empty)
  from Cons.IH [OF this] show ?case by simp
qed

text \<open>The existing-id objects the page builds hold non-empty identifiers only: after a
  save always, and after a load when the store's identifiers are non-empty.\<close>

lemma ids_valid_rebuildExisting: "ids_valid (rebuildExisting att ex)"
proof -
  have "ids_valid ([] :: string obj)" by (simp add: ids_valid_def)
  then show ?thesis by (simp add: rebuildExisting_def ids_valid_fold_rebuildStep)
qed

lemma ids_valid_fold_recordStep:
  "ids_valid (fst acc) \<Longrightarrow> list_all (\<lambda>r. row_id r \<noteq> []) rows \<Longrightarrow>
   ids_valid (fst (fold recordStep rows acc))"
proof (induction rows arbitrary: acc)
  case Nil
  then show ?case by simp
next
  case (Cons r rows)
  from Cons.prems have "ids_valid (fst (recordStep r acc))"
    by (simp add: fst_recordStep ids_valid_obj_set)
  from Cons.IH [OF this] Cons.prems(2) show ?case by simp
qed

lemma ids_valid_buildEditableState:
  assumes "list_all (\<lambda>r. row_id r \<noteq> []) rows"
  shows "ids_valid (fst (buildEditableState rows))"
proof -
  have "ids_valid (fst (([], []) :: string obj \<times> entry obj))" by (simp add: ids_valid_def)
  from ids_valid_fold_recordStep [OF this assms] show ?thesis
    by (simp add: buildEditableState_def)
qed

lemma handleSaveAttendance_success:
  assumes "saveSucceeds exec clock user confirmed w"
  shows "existingRecords (fst (handleSaveAttendance exec clock user confirmed w))
           = rebuildExisting (attendance (fst w)) (existingRecords (fst w)) \<and>
         attendance (fst (handleSaveAttendance exec clock user confirmed w)) = attendance (fst w) \<and>
         \<not> hasChanges (fst (handleSaveAttendance exec clock user confirmed w))"
  using assms
  by (auto simp: saveSucceeds_def handleSaveAttendance_def Let_def split: option.splits)

lemma handleSaveAttendance_failure:
  assumes "\<not> saveSucceeds exec clock user confirmed w"
  shows "existingRecords (fst (handleSaveAttendance exec clock user confirmed w))
           = existingRecords (fst w) \<and>
         attendance (fst (handleSaveAttendance exec clock user confirmed w)) = attendance (fst w) \<and>
         hasChanges (fst (handleSaveAttendance exec clock user confirmed w)) = hasChanges (fst w)"
  using assms
  by (auto simp: saveSucceeds_def handleSaveAttendance_def Let_def split: option.splits)

text \<open>
  Claim C9. After a successful save, every student whose editable entry has a non-empty
  status is a key of the rebuilt existing-id object. A student whose record was inserted
  by that save (non-empty status, no identifier held before) is mapped to the placeholder
  \<open>'new'\<close>, not to an identifier of the store; in the submission of a following save
  (any class, user and date) the entry is then an update with identifier \<open>'new'\<close>, and
  the student is in no insert.
\<close>

theorem save_marks_inserted_as_new:
  assumes "saveSucceeds exec clock user confirmed (st, db)"
    and "(k, e) \<in> set (attendance st)" and "truthy (entry_status e)"
  shows "k \<in> obj_keys (existingRecords (fst (handleSaveAttendance exec clock user confirmed (st, db)))) \<and>
         (\<not> truthy (obj_get (existingRecords st) k) \<longrightarrow>
            obj_get (existingRecords (fst (handleSaveAttendance exec clock user confirmed (st, db)))) k
              = Some ''new'' \<and>
            \<lparr>sr_student_id = k, sr_class_id = cid, sr_teacher_id = uid, sr_attendance_date = d,
              sr_status = or_empty (entry_status e), sr_notes = or_null (entry_notes e),
              ur_id = ''new''\<rparr>
              \<in> set (snd (computeSubmission cid uid d
                     (attendance (fst (handleSaveAttendance exec clock user confirmed (st, db))))
                     (existingRecords (fst (handleSaveAttendance exec clock user confirmed (st, db)))))) \<and>
            k \<notin> sr_student_id ` set (fst (computeSubmission cid uid d
                     (attendance (fst (handleSaveAttendance exec clock user confirmed (st, db))))
                     (existingRecords (fst (handleSaveAttendance exec clock user confirmed (st, db)))))))"
proof -
  let ?st' = "fst (handleSaveAttendance exec clock user confirmed (st, db))"
  let ?ex' = "rebuildExisting (attendance st) (existingRecords st)"
  have ex': "existingRecords ?st' = ?ex'" and att': "attendance ?st' = attendance st"
    using handleSaveAttendance_success [OF assms(1)] by simp_all
  have written: "\<exists>p \<in> set (attendance st). fst p = k \<and>
      (truthy (entry_status (snd p)) \<or> truthy (obj_get (existingRecords st) k))"
    using assms(2,3) by force
  have get: "obj_get ?ex' k =
      Some (if truthy (obj_get (existingRecords st) k) then or_empty (obj_get (existingRecords st) k)
            else ''new'')"
    using written by (simp add: obj_get_rebuildExisting)
  have key: "k \<in> obj_keys ?ex'"
    using get obj_get_None_iff [of ?ex' k] by auto
  have tr: "truthy (obj_get ?ex' k)"
    using get by (simp add: truthy_or_empty)
  have upd: "\<lparr>sr_student_id = k, sr_class_id = cid, sr_teacher_id = uid, sr_attendance_date = d,
              sr_status = or_empty (entry_status e), sr_notes = or_null (entry_notes e),
              ur_id = or_empty (obj_get ?ex' k)\<rparr>
              \<in> set (snd (computeSubmission cid uid d (attendance st) ?ex'))"
    using assms(2,3) tr by (force simp: computeSubmission_def fold_submitStep)
  have noins: "k \<notin> sr_student_id ` set (fst (computeSubmission cid uid d (attendance st) ?ex'))"
    using tr by (auto simp: computeSubmission_def fold_submitStep)
  show ?thesis
    using key get upd noins
    by (cases "truthy (obj_get (existingRecords st) k)") (simp_all add: ex' att' or_empty_Some)
qed


lemma ex_edited_save_succeeds: "saveSucceeds ex_remote ex_clock (Some ''t1'') False (ex_edited, [])"
  by (simp add: saveSucceeds_def ex_edited_def ex_loaded_def ex_selected_def initial_state_def
      ex_class_def ex_roster_def unmarkedStudents_def statusOf_def obj_get_def
      computeSubmission_def submitStep_unfold persist_def or_empty_def or_null_def ex_clock_def
      Let_def)

theorem save_marks_inserted_as_new_witness:
  "saveSucceeds ex_remote ex_clock (Some ''t1'') False (ex_edited, []) \<and>
   (''s1'', \<lparr>entry_status = Some ''present'', entry_notes = None\<rparr>) \<in> set (attendance ex_edited) \<and>
   truthy (entry_status \<lparr>entry_status = Some ''present'', entry_notes = None\<rparr>) \<and>
   \<not> truthy (obj_get (existingRecords ex_edited) ''s1'') \<and>
   obj_get (existingRecords
      (fst (handleSaveAttendance ex_remote ex_clock (Some ''t1'') False (ex_edited, [])))) ''s1''
     = Some ''new''"
proof -
  have h2: "(''s1'', \<lparr>entry_status = Some ''present'', entry_notes = None\<rparr>)
      \<in> set (attendance ex_edited)"
    by (simp add: ex_edited_def)
  have h3: "truthy (entry_status \<lparr>entry_status = Some ''present'', entry_notes = None\<rparr>)"
    by simp
  have h4: "\<not> truthy (obj_get (existingRecords ex_edited) ''s1'')"
    by (simp add: ex_edited_def obj_get_def)
  show ?thesis
    using ex_edited_save_succeeds h2 h3 h4
      save_marks_inserted_as_new [OF ex_edited_save_succeeds h2 h3]
    by simp
qed

section \<open>Properties of the persistence step\<close>

lemma issueInOrder_prefix:
  "snd (snd (issueInOrder exec cs db)) = take (length (snd (snd (issueInOrder exec cs db)))) cs"
  by (induction cs arbitrary: db) (simp_all split: option.splits)

lemma issueInOrder_all:
  "fst (issueInOrder exec cs db) = None \<Longrightarrow> snd (snd (issueInOrder exec cs db)) = cs"
  by (induction cs arbitrary: db) (simp_all split: option.splits)

lemma issueInOrder_store:
  "fst (snd (issueInOrder exec cs db)) = applyCalls exec (snd (snd (issueInOrder exec cs db))) db"
  by (induction cs arbitrary: db) (simp_all add: applyCalls_def split: option.splits)

lemma issueInOrder_nonempty:
  "fst (issueInOrder exec cs db) = Some e \<Longrightarrow> snd (snd (issueInOrder exec cs db)) \<noteq> []"
  by (cases cs) (simp_all split: option.splits)

lemma issueInOrder_failed_last:
  "fst (issueInOrder exec cs db) = Some e \<Longrightarrow>
   fst (exec (last (snd (snd (issueInOrder exec cs db))))
          (applyCalls exec (butlast (snd (snd (issueInOrder exec cs db)))) db)) = Some e"
proof (induction cs arbitrary: db)
  case Nil
  then show ?case by simp
next
  case (Cons c cs)
  show ?case
  proof (cases "fst (exec c db)")
    case None
    with Cons.prems have f: "fst (issueInOrder exec cs (snd (exec c db))) = Some e" by simp
    from issueInOrder_nonempty [OF f] Cons.IH [OF f] None show ?thesis
      by (simp add: applyCalls_def)
  next
    case (Some err)
    with Cons.prems show ?thesis by (simp add: applyCalls_def)
  qed
qed

lemma issueInOrder_earlier_ok:
  "i < length (snd (snd (issueInOrder exec cs db))) \<Longrightarrow>
   Suc i < length (snd (snd (issueInOrder exec cs db))) \<or> fst (issueInOrder exec cs db) = None \<Longrightarrow>
   fst (exec (snd (snd (issueInOrder exec cs db)) ! i)
          (applyCalls exec (take i (snd (snd (issueInOrder exec cs db)))) db)) = None"
proof (induction cs arbitrary: db i)
  case Nil
  then show ?case by simp
next
  case (Cons c cs)
  show ?case
  proof (cases "fst (exec c db)")
    case None
    show ?thesis
    proof (cases i)
      case 0
      with None show ?thesis by (simp add: applyCalls_def)
    next
      case (Suc j)
      with None Cons.prems
      have "j < length (snd (snd (issueInOrder exec cs (snd (exec c db)))))"
        and "Suc j < length (snd (snd (issueInOrder exec cs (snd (exec c db)))))
             \<or> fst (issueInOrder exec cs (snd (exec c db))) = None"
        by simp_all
      from Cons.IH [OF this] None Suc show ?thesis by (simp add: applyCalls_def)
    qed
  next
    case (Some err)
    with Cons.prems show ?thesis by simp
  qed
qed

lemma updateLoop_issueInOrder:
  "updateLoop exec clock n rs db = issueInOrder exec (updateCalls clock n rs) db"
  by (induction rs arbitrary: n db)
     (simp_all add: updateCalls_def updateCallOf_def Let_def split: option.splits)

lemma persist_issueInOrder:
  "persist exec clock ins upds db = issueInOrder exec (plannedCalls clock ins upds) db"
  by (simp add: persist_def plannedCalls_def updateLoop_issueInOrder Let_def split: option.splits)

text \<open>
  Claim C5. For every submission and every behaviour of the store, the calls that the
  persistence step issues are an initial part of the planned calls (the single batched
  insert of all new records, present when there is a new record, then one update per
  record to update, in order); each call is issued only after every earlier call has
  succeeded; when no call fails all planned calls are issued; when a call fails it is the
  last call issued, so nothing of the batch follows it; and the store is left as the
  issued calls have made it, with nothing undone.
\<close>

theorem persist_sequential_no_rollback:
  "(let res = persist exec clock ins upds db;
        err = fst res; db' = fst (snd res); issued = snd (snd res)
    in plannedCalls clock ins upds
         = (if ins = [] then [] else [InsertCall ins]) @ map (updateCallOf clock) (enumerate 0 upds) \<and>
       issued = take (length issued) (plannedCalls clock ins upds) \<and>
       (\<forall>i < length issued. Suc i < length issued \<or> err = None \<longrightarrow>
          fst (exec (issued ! i) (applyCalls exec (take i issued) db)) = None) \<and>
       (err = None \<longrightarrow> issued = plannedCalls clock ins upds) \<and>
       (\<forall>e. err = Some e \<longrightarrow>
          issued \<noteq> [] \<and> fst (exec (last issued) (applyCalls exec (butlast issued) db)) = Some e) \<and>
       db' = applyCalls exec issued db)"
proof -
  have p: "persist exec clock ins upds db = issueInOrder exec (plannedCalls clock ins upds) db"
    by (rule persist_issueInOrder)
  have plan: "plannedCalls clock ins upds
         = (if ins = [] then [] else [InsertCall ins]) @ map (updateCallOf clock) (enumerate 0 upds)"
    by (simp add: plannedCalls_def updateCalls_def)
  show ?thesis
    unfolding Let_def p
    using plan issueInOrder_prefix [of exec "plannedCalls clock ins upds" db]
      issueInOrder_earlier_ok [of _ exec "plannedCalls clock ins upds" db]
      issueInOrder_all [of exec "plannedCalls clock ins upds" db]
      issueInOrder_nonempty [of exec "plannedCalls clock ins upds" db]
      issueInOrder_failed_last [of exec "plannedCalls clock ins upds" db]
      issueInOrder_store [of exec "plannedCalls clock ins upds" db]
    by blast
qed


lemma ex_persist:
  "persist ex_remote ex_clock [ex_insert] ex_updates [] =
     (Some ''no such record'',
      [InsertCall [ex_insert], UpdateCall ''r99'' ''late'' None ''09:00:00''],
      [InsertCall [ex_insert], UpdateCall ''r99'' ''late'' None ''09:00:00'',
       UpdateCall ''gone'' ''late'' None ''09:00:01''])"
  by (simp add: persist_def ex_updates_def ex_update_def ex_clock_def Let_def)

theorem persist_sequential_no_rollback_witness:
  "fst (persist ex_remote ex_clock [ex_insert] ex_updates []) = Some ''no such record'' \<and>
   snd (snd (persist ex_remote ex_clock [ex_insert] ex_updates []))
     = take 3 (plannedCalls ex_clock [ex_insert] ex_updates) \<and>
   last (snd (snd (persist ex_remote ex_clock [ex_insert] ex_updates [])))
     = UpdateCall ''gone'' ''late'' None ''09:00:01'' \<and>
   fst (ex_remote (last (snd (snd (persist ex_remote ex_clock [ex_insert] ex_updates []))))
          (applyCalls ex_remote
             (butlast (snd (snd (persist ex_remote ex_clock [ex_insert] ex_updates [])))) []))
     = Some ''no such record'' \<and>
   fst (snd (persist ex_remote ex_clock [ex_insert] ex_updates []))
     = [InsertCall [ex_insert], UpdateCall ''r99'' ''late'' None ''09:00:00'']"
proof -
  let ?tr = "snd (snd (persist ex_remote ex_clock [ex_insert] ex_updates []))"
  have len: "length ?tr = 3"
    by (simp add: ex_persist)
  have err: "fst (persist ex_remote ex_clock [ex_insert] ex_updates []) = Some ''no such record''"
    by (simp add: ex_persist)
  note T = persist_sequential_no_rollback [of ex_remote ex_clock "[ex_insert]" ex_updates "[]",
      unfolded Let_def]
  from T have "?tr = take (length ?tr) (plannedCalls ex_clock [ex_insert] ex_updates)"
    by blast
  then have A: "?tr = take 3 (plannedCalls ex_clock [ex_insert] ex_updates)"
    by (simp only: len)
  from T err
  have B: "fst (ex_remote (last ?tr) (applyCalls ex_remote (butlast ?tr) [])) = Some ''no such record''"
    by blast
  have C: "last ?tr = UpdateCall ''gone'' ''late'' None ''09:00:01''"
    and D: "fst (snd (persist ex_remote ex_clock [ex_insert] ex_updates []))
      = [InsertCall [ex_insert], UpdateCall ''r99'' ''late'' None ''09:00:00'']"
    by (simp_all add: ex_persist)
  from err A C B D show ?thesis by blast
qed

section \<open>The dirty flag\<close>

lemma hasChanges_loadClasses: "hasChanges (loadClasses st classId r) = hasChanges st"
  by (cases r) (simp_all add: loadClasses_def Let_def split: option.splits)

lemma hasChanges_load:
  "hasChanges (loadStudentsAndAttendance st r1 r2) = (\<not> loadSucceeds st r1 r2 \<and> hasChanges st)"
proof (cases "selectedClass st")
  case None
  then show ?thesis by (simp add: loadStudentsAndAttendance_def loadSucceeds_def)
next
  case (Some cls)
  then show ?thesis
    by (cases r1; cases r2) (simp_all add: loadStudentsAndAttendance_def loadSucceeds_def Let_def)
qed

lemma hasChanges_handleClassChange:
  "hasChanges (handleClassChange st newClassId confirmed) = hasChanges st"
  by (simp add: handleClassChange_def)

lemma hasChanges_handleQuickMark:
  "hasChanges (handleQuickMark st st_new confirmed) = (quickMarkApplies st confirmed \<or> hasChanges st)"
  by (simp add: handleQuickMark_def quickMarkApplies_def)

lemma hasChanges_handleSaveAttendance:
  "hasChanges (fst (handleSaveAttendance exec clock user confirmed w))
     = (\<not> saveSucceeds exec clock user confirmed w \<and> hasChanges (fst w))"
  using handleSaveAttendance_success [of exec clock user confirmed w]
    handleSaveAttendance_failure [of exec clock user confirmed w]
  by blast

text \<open>
  Claim C6, as the code has it. The state starts clean. Every
  \<open>handleAttendanceChange\<close> call makes it dirty, and so does every
  \<open>handleQuickMark\<close> call that is confirmed on a page with a class selected and a
  roster that is not empty. A save that goes through makes it clean, and so does a load
  of roster and attendance that goes through. Nothing else changes the flag: not a
  declined bulk operation, a save or a load that fails, a change of class or date, the
  load of the classes, or leaving the page.
\<close>

theorem dirty_flag_transitions:
  "\<not> hasChanges (initial_state today) \<and>
   hasChanges (fst (step exec ev w)) =
     (case ev of
        AttendanceChange studentId fld v \<Rightarrow> True
      | QuickMark st_new confirmed \<Rightarrow> quickMarkApplies (fst w) confirmed \<or> hasChanges (fst w)
      | SaveAttendance clock user confirmed \<Rightarrow>
          \<not> saveSucceeds exec clock user confirmed w \<and> hasChanges (fst w)
      | LoadStudentsAndAttendance r1 r2 \<Rightarrow> \<not> loadSucceeds (fst w) r1 r2 \<and> hasChanges (fst w)
      | LoadClasses classId r \<Rightarrow> hasChanges (fst w)
      | ClassChange newClassId confirmed \<Rightarrow> hasChanges (fst w)
      | DateChange newDate \<Rightarrow> hasChanges (fst w)
      | BackToDashboard \<Rightarrow> hasChanges (fst w))"
proof -
  have init: "\<not> hasChanges (initial_state today)" by (simp add: initial_state_def)
  have trans: "hasChanges (fst (step exec ev w)) =
     (case ev of
        AttendanceChange studentId fld v \<Rightarrow> True
      | QuickMark st_new confirmed \<Rightarrow> quickMarkApplies (fst w) confirmed \<or> hasChanges (fst w)
      | SaveAttendance clock user confirmed \<Rightarrow>
          \<not> saveSucceeds exec clock user confirmed w \<and> hasChanges (fst w)
      | LoadStudentsAndAttendance r1 r2 \<Rightarrow> \<not> loadSucceeds (fst w) r1 r2 \<and> hasChanges (fst w)
      | LoadClasses classId r \<Rightarrow> hasChanges (fst w)
      | ClassChange newClassId confirmed \<Rightarrow> hasChanges (fst w)
      | DateChange newDate \<Rightarrow> hasChanges (fst w)
      | BackToDashboard \<Rightarrow> hasChanges (fst w))"
  proof (cases ev)
    case (LoadClasses classId r)
    then show ?thesis by (simp add: hasChanges_loadClasses)
  next
    case (LoadStudentsAndAttendance r1 r2)
    then show ?thesis by (simp add: hasChanges_load)
  next
    case (ClassChange newClassId confirmed)
    then show ?thesis by (simp add: hasChanges_handleClassChange)
  next
    case (DateChange newDate)
    then show ?thesis by (simp add: dateChange_def)
  next
    case BackToDashboard
    then show ?thesis by (simp add: backToDashboard_def)
  next
    case (AttendanceChange studentId fld v)
    then show ?thesis by (simp add: handleAttendanceChange_def)
  next
    case (QuickMark st_new confirmed)
    then show ?thesis by (simp add: hasChanges_handleQuickMark)
  next
    case (SaveAttendance clock user confirmed)
    then show ?thesis by (simp add: hasChanges_handleSaveAttendance)
  qed
  from init trans show ?thesis ..
qed

text \<open>The cycle of the claim on 2 May: an edit makes the loaded page dirty, the save that goes
  through makes it clean again.\<close>

theorem dirty_flag_transitions_witness:
  "\<not> hasChanges ex_loaded \<and>
   hasChanges (fst (step ex_remote (AttendanceChange ''s2'' Status ''late'') (ex_loaded, []))) \<and>
   hasChanges ex_edited \<and> saveSucceeds ex_remote ex_clock (Some ''t1'') False (ex_edited, []) \<and>
   \<not> hasChanges (fst (step ex_remote (SaveAttendance ex_clock (Some ''t1'') False) (ex_edited, [])))"
proof -
  have clean: "\<not> hasChanges ex_loaded"
    by (simp add: ex_loaded_def ex_selected_def initial_state_def)
  have dirty: "hasChanges ex_edited" by (simp add: ex_edited_def)
  show ?thesis
    using clean dirty ex_edited_save_succeeds
      dirty_flag_transitions [of "''2024-05-02''" ex_remote
        "AttendanceChange ''s2'' Status ''late''" "(ex_loaded, [])"]
      dirty_flag_transitions [of "''2024-05-02''" ex_remote
        "SaveAttendance ex_clock (Some ''t1'') False" "(ex_edited, [])"]
    by simp
qed

text \<open>
  The claim as written (no other operation sets the flag) fails: with unsaved edits on
  the page, a load of roster and attendance that goes through sets the flag to clean.
\<close>

theorem load_clears_dirty_flag_counterexample:
  "hasChanges ex_edited \<and>
   \<not> hasChanges (fst (step ex_remote
       (LoadStudentsAndAttendance (DataReply (Some ex_roster)) (DataReply (Some ex_rows)))
       (ex_edited, [])))"
  by (simp add: ex_edited_def ex_loaded_def ex_selected_def initial_state_def
      loadStudentsAndAttendance_def Let_def)

section \<open>Switching class and date with unsaved changes\<close>

text \<open>With unsaved changes, \<open>handleClassChange\<close> asks; a declined question changes nothing
  but the record of the question, an accepted one changes the selection.\<close>

lemma handleClassChange_declined:
  "hasChanges st \<Longrightarrow>
   handleClassChange st newClassId False = st\<lparr>prompts := prompts st @ [ConfirmSwitchClass]\<rparr>"
  by (simp add: handleClassChange_def)

lemma handleClassChange_accepted:
  "hasChanges st \<Longrightarrow>
   handleClassChange st newClassId True =
     st\<lparr>selectedClass := find (\<lambda>c. cls_id c = newClassId) (classes st),
        route := Some (''/teacher/attendance/'' @ newClassId),
        prompts := prompts st @ [ConfirmSwitchClass]\<rparr>"
  by (simp add: handleClassChange_def)

text \<open>
  Claim C4, at the input where the code departs from it. The page of 2 May has unsaved
  edits (Bob set to late, Alice to present). The teacher picks 3 May in the date input:
  the date changes at once and no question is asked, and the reload that the change of
  date sets off replaces the editable object, so the edits are lost without any
  confirmation. The change of class on the same page does ask, and does nothing when the
  answer is no.
\<close>

theorem date_change_asks_nothing:
  "hasChanges ex_edited \<and>
   currentDate (dateChange ex_edited ''2024-05-03'') = ''2024-05-03'' \<and>
   prompts (dateChange ex_edited ''2024-05-03'') = prompts ex_edited \<and>
   attendance (loadFromStore (dateChange ex_edited ''2024-05-03'') ex_db) = [] \<and>
   attendance ex_edited \<noteq> [] \<and>
   prompts (handleClassChange ex_edited ''c2'' False) = prompts ex_edited @ [ConfirmSwitchClass] \<and>
   attendance (handleClassChange ex_edited ''c2'' False) = attendance ex_edited \<and>
   selectedClass (handleClassChange ex_edited ''c2'' False) = selectedClass ex_edited \<and>
   currentDate (handleClassChange ex_edited ''c2'' False) = currentDate ex_edited"
  by (simp add: dateChange_def handleClassChange_def loadFromStore_def ex_edited_def ex_loaded_def
      ex_selected_def initial_state_def ex_class_def ex_db_def fetchRoster_def fetchAttendance_def
      ex_alice_def ex_bob_def ex_carol_def select_roster_def select_attendance_def
      loadStudentsAndAttendance_def or_nil_def buildEditableState_def Let_def)

end
